theory Spec2Isabelle
  imports Complex_Main "HOL-Library.Sublist"
begin

section \<open>The Spotify API client: data model\<close>

text \<open>
  A shallow embedding of \<^verbatim>\<open>src/spotifyapiclient.py\<close> (class \<^verbatim>\<open>SpotifyAPIClient\<close>).
  Every method becomes a function on an explicit state that holds the attributes of
  \<^verbatim>\<open>self\<close> and the part of the world the method touches: the clock, the HTTP
  requests sent so far, the lines waiting on standard input and the CSV files on disk.
  An exception is a value \<open>Inl e\<close>; a \<^verbatim>\<open>while True\<close> loop that never reaches its
  \<^verbatim>\<open>break\<close> is the value \<open>None\<close>. Output written with \<^verbatim>\<open>print\<close> is not modelled.
\<close>

text \<open>
  The first four errors are the Python exceptions the code can raise. The last four are
  the error kinds named by the specification; no path of the source raises them.
\<close>

datatype error =
    KeyError | IndexError | EOFError | FileNotFoundError
  | AuthError | DataError | ConfigError | TransportError

subsection \<open>JSON objects served by the remote API\<close>

record artist_json =
  aj_name :: string
  aj_id :: string
  aj_genres :: "string list"

record playlist_json =
  pj_id :: string
  pj_name :: string

record album_json =
  bj_name :: string
  bj_id :: string
  bj_album_group :: string
  bj_release_date :: string
  bj_is_playable :: bool

text \<open>An entry of a track's \<^verbatim>\<open>artists\<close> array.\<close>

record artist_ref =
  ar_id :: string
  ar_name :: string

record track_json =
  tj_name :: string
  tj_id :: string
  tj_uri :: string
  tj_artists :: "artist_ref list"
  tj_disc_number :: int
  tj_track_number :: int
  tj_is_playable :: bool
  tj_duration_ms :: int

text \<open>An entry of a playlist's items: \<^verbatim>\<open>{'track': {...}, 'added_at': ...}\<close>.\<close>

record playlist_item_json =
  ij_id :: string
  ij_name :: string
  ij_uri :: string
  ij_artists :: "artist_ref list"
  ij_album_name :: string
  ij_album_uri :: string
  ij_added_at :: string

text \<open>
  An entry of the \<^verbatim>\<open>albums\<close> array of the several-albums endpoint:
  \<^verbatim>\<open>{'id', 'total_tracks', 'tracks': {'limit', 'items'}}\<close>.
\<close>

record full_album_json =
  fj_id :: string
  fj_total_tracks :: int
  fj_limit :: int
  fj_items :: "track_json list"

text \<open>
  The body of a response, by the keys the code reads from it. A body that lacks the keys
  an operation reads makes that operation raise \<open>KeyError\<close>; \<open>OtherBody\<close> lacks all.
\<close>

datatype json_body =
    TokenBody "string option" "string option"
  | UserBody string
  | ArtistsBody "artist_json list" nat
  | PlaylistsBody "playlist_json list" nat
  | PlaylistItemsBody "playlist_item_json list" nat
  | AlbumsBody "album_json list" nat
  | TracksBody "track_json list" nat
  | SeveralAlbumsBody "full_album_json list"
  | ErrorBody string
  | OtherBody

record response =
  status_code :: nat
  body :: json_body

text \<open>
  A request, by endpoint. \<open>PostToken\<close> carries the client id, the client secret (the
  two halves of the Basic authorization header) and the form data; every other request
  carries first the bearer token of its Authorization header, then its parameters.
\<close>

datatype token_grant = AuthorizationCode string | RefreshToken string

datatype request =
    PostToken string string token_grant
  | GetMe string
  | GetFollowing string "string option"
  | PutFollowing string string
  | GetPlaylists string nat
  | PostPlaylist string string string string
  | GetPlaylistItems string string nat
  | PostPlaylistItems string string "string list"
  | GetArtistAlbums string string nat
  | GetAlbumTracks string string nat
  | GetSeveralAlbums string string

text \<open>
  The remote service answers a request knowing how many requests came before it, so
  that any sequence of responses, and any server that answers by the request's
  parameters, is a \<open>server\<close>.
\<close>

type_synonym server = "nat \<Rightarrow> request \<Rightarrow> response"

subsection \<open>Rows of the tables the client returns\<close>

record artist_row =
  artist :: string
  artist_id :: string
  genres :: string

record playlist_row =
  playlist_id :: string
  playlist_name :: string

record album_row =
  album_artist_id :: string
  album_name :: string
  album_id :: string
  album_group :: string
  album_release_date :: string
  album_is_playable :: bool

record track_row =
  track_album_id :: string
  track_name :: string
  track_id :: string
  track_uri :: string
  track_artist_ids :: string
  track_artist_names :: string
  disc_number :: int
  track_number :: int
  track_is_playable :: bool
  track_length :: int

record playlist_track_row =
  item_playlist_id :: string
  item_track_id :: string
  item_track_name :: string
  item_track_uri :: string
  item_artist_ids :: string
  item_artist_names :: string
  item_album_name :: string
  item_album_uri :: string
  item_added_at :: string

text \<open>The ledger CSV: rows of the columns \<^verbatim>\<open>track_id, album_id\<close>.\<close>

type_synonym ledger = "(string \<times> string) list"

subsection \<open>The client and its world\<close>

text \<open>
  The first six fields are the attributes of \<^verbatim>\<open>self\<close>. \<open>now\<close> is what
  \<^verbatim>\<open>time.time()\<close> returns (a float in the source, a rational here; it stands still
  during a call), \<open>sent\<close> the requests issued so far, oldest first, \<open>stdin\<close> the lines
  \<^verbatim>\<open>input\<close> will read, \<open>files\<close> the ledger files by path and \<open>written\<close> the log of
  \<^verbatim>\<open>to_csv\<close> calls.
\<close>

record state =
  client_id :: string
  client_secret :: string
  refresh_token :: string
  access_token :: string
  expiration_time :: rat
  user_id :: string
  now :: rat
  sent :: "request list"
  stdin :: "string list"
  files :: "string \<Rightarrow> ledger option"
  written :: "(string \<times> ledger) list"

text \<open>What a call yields: nothing if it never returns, else an error or a value, and the state.\<close>

type_synonym 'a outcome = "((error + 'a) \<times> state) option"

section \<open>Primitives\<close>

definition http :: "server \<Rightarrow> request \<Rightarrow> state \<Rightarrow> response \<times> state" where
  "http srv rq s = (srv (length (sent s)) rq, s\<lparr>sent := sent s @ [rq]\<rparr>)"

text \<open>\<^verbatim>\<open>input(prompt)\<close>: the next line of standard input, \<open>EOFError\<close> if there is none.\<close>

definition input :: "state \<Rightarrow> (error + string) \<times> state" where
  "input s = (case stdin s of
                [] \<Rightarrow> (Inl EOFError, s)
              | l # ls \<Rightarrow> (Inr l, s\<lparr>stdin := ls\<rparr>))"

text \<open>\<^verbatim>\<open>sep.join(xs)\<close>\<close>

fun join :: "string \<Rightarrow> string list \<Rightarrow> string" where
  "join sep [] = []"
| "join sep [x] = x"
| "join sep (x # y # ys) = x @ sep @ join sep (y # ys)"

text \<open>
  \<^verbatim>\<open>round(ms / 1000)\<close>: Python rounds a float to the nearest integer, a tie to the
  even one. For an integer number of milliseconds the quotient is a tie exactly when
  the remainder is 500.
\<close>

definition round_seconds :: "int \<Rightarrow> int" where
  "round_seconds ms =
     (let q = ms div 1000; r = ms mod 1000 in
      if r < 500 then q
      else if 500 < r then q + 1
      else if even q then q else q + 1)"

text \<open>\<^verbatim>\<open>needle in hay\<close> on strings: \<open>needle\<close> occurs in \<open>hay\<close> as a contiguous run.\<close>

fun str_in :: "string \<Rightarrow> string \<Rightarrow> bool" where
  "str_in needle [] = (needle = [])"
| "str_in needle (c # cs) = (prefix needle (c # cs) \<or> str_in needle cs)"

text \<open>
  \<^verbatim>\<open>DataFrame.duplicated(subset = key)\<close> with the default \<^verbatim>\<open>keep = 'first'\<close>: one flag per
  row, set when an earlier row has the same key. \<open>seen\<close> holds the keys of the rows
  already passed.
\<close>

fun duplicated_from :: "'k list \<Rightarrow> ('a \<Rightarrow> 'k) \<Rightarrow> 'a list \<Rightarrow> bool list" where
  "duplicated_from seen key [] = []"
| "duplicated_from seen key (x # xs) =
     (key x \<in> set seen) # duplicated_from (key x # seen) key xs"

definition duplicated :: "('a \<Rightarrow> 'k) \<Rightarrow> 'a list \<Rightarrow> bool list" where
  "duplicated key xs = duplicated_from [] key xs"

text \<open>\<^verbatim>\<open>df.loc[flags]\<close>: the rows whose flag is set, in order.\<close>

definition loc :: "'a list \<Rightarrow> bool list \<Rightarrow> 'a list" where
  "loc xs flags = map fst (filter snd (zip xs flags))"

text \<open>\<^verbatim>\<open>df.drop_duplicates()\<close>: the rows that are not duplicates of an earlier whole row.\<close>

definition drop_duplicates :: "'a list \<Rightarrow> 'a list" where
  "drop_duplicates xs = loc xs (map Not (duplicated (\<lambda>x. x) xs))"

section \<open>Authentication\<close>

text \<open>
  \<^verbatim>\<open>get_refresh_token\<close> (lines 22-46): read the authorization code, exchange it, return
  the \<^verbatim>\<open>refresh_token\<close> field of the answer.
\<close>

definition get_refresh_token :: "server \<Rightarrow> state \<Rightarrow> (error + string) \<times> state" where
  "get_refresh_token srv s =
     (case input s of
        (Inl e, s1) \<Rightarrow> (Inl e, s1)
      | (Inr code, s1) \<Rightarrow>
          (let (resp, s2) =
                 http srv (PostToken (client_id s1) (client_secret s1) (AuthorizationCode code)) s1
           in case body resp of
                TokenBody a (Some r) \<Rightarrow> (Inr r, s2)
              | _ \<Rightarrow> (Inl KeyError, s2)))"

text \<open>
  \<^verbatim>\<open>get_access_token\<close> (lines 48-68): exchange the refresh token and \<^emph>\<open>return\<close> the pair
  of the new access token and its expiry. It assigns nothing to \<^verbatim>\<open>self\<close>.
\<close>

definition get_access_token :: "server \<Rightarrow> state \<Rightarrow> (error + string \<times> rat) \<times> state" where
  "get_access_token srv s =
     (let (resp, s1) =
            http srv (PostToken (client_id s) (client_secret s) (RefreshToken (refresh_token s))) s
      in case body resp of
           TokenBody (Some a) r \<Rightarrow> (Inr (a, now s1 + 3600), s1)
         | _ \<Rightarrow> (Inl KeyError, s1))"

text \<open>
  The decorator \<^verbatim>\<open>check_access_token\<close> (lines 70-79): when the token is within 600
  seconds of its expiry, call \<^verbatim>\<open>get_access_token\<close> and drop what it returns; then run
  the wrapped method.
\<close>

definition check_access_token :: "server \<Rightarrow> (state \<Rightarrow> 'a outcome) \<Rightarrow> state \<Rightarrow> 'a outcome" where
  "check_access_token srv func s =
     (if expiration_time s - now s \<le> 600
      then (case get_access_token srv s of
              (Inl e, s1) \<Rightarrow> Some (Inl e, s1)
            | (Inr _, s1) \<Rightarrow> func s1)
      else func s)"

text \<open>\<^verbatim>\<open>get_user_id\<close> (lines 81-95)\<close>

definition get_user_id :: "server \<Rightarrow> state \<Rightarrow> string outcome" where
  "get_user_id srv =
     check_access_token srv (\<lambda>s.
       let (resp, s1) = http srv (GetMe (access_token s)) s
       in case body resp of
            UserBody u \<Rightarrow> Some (Inr u, s1)
          | _ \<Rightarrow> Some (Inl KeyError, s1))"

text \<open>
  The constructor (lines 9-20). Unlike the decorator, it stores what
  \<^verbatim>\<open>get_access_token\<close> returns. The state it starts from holds the client id and
  secret; \<open>given\<close> is the optional \<^verbatim>\<open>refresh_token\<close> argument.
\<close>

definition init :: "server \<Rightarrow> string option \<Rightarrow> state \<Rightarrow> unit outcome" where
  "init srv given s =
     (case (case given of
              None \<Rightarrow> get_refresh_token srv s
            | Some r \<Rightarrow> (Inr r, s)) of
        (Inl e, s1) \<Rightarrow> Some (Inl e, s1)
      | (Inr r, s1) \<Rightarrow>
          (let s2 = s1\<lparr>refresh_token := r\<rparr>
           in case get_access_token srv s2 of
                (Inl e, s3) \<Rightarrow> Some (Inl e, s3)
              | (Inr (a, t), s3) \<Rightarrow>
                  (let s4 = s3\<lparr>access_token := a, expiration_time := t\<rparr>
                   in case get_user_id srv s4 of
                        None \<Rightarrow> None
                      | Some (Inl e, s5) \<Rightarrow> Some (Inl e, s5)
                      | Some (Inr u, s5) \<Rightarrow> Some (Inr (), s5\<lparr>user_id := u\<rparr>))))"

section \<open>Paginated reads\<close>

subsection \<open>Offset pagination\<close>

text \<open>
  The four offset loops of the source (lines 181-196, 257-278, 333-351 and 376-398) are
  the same loop up to the request they send and the rows they build from a page:
  \<^verbatim>\<open>
  rows = []
  while True:
      response = requests.get(url, headers = headers, params = params)
      data = [row(item) for item in response.json()['items']]
      rows += data
      if len(rows) == response.json()['total']:
          break
      else:
          params['offset'] += 50
  \<close>
  \<open>mk offset\<close> is the request for the page at \<open>offset\<close> and \<open>page\<close> reads the rows and
  the total off a body, \<open>None\<close> when the body lacks \<^verbatim>\<open>items\<close> or \<^verbatim>\<open>total\<close>.
\<close>

partial_function (option) offset_pages ::
  "server \<Rightarrow> (nat \<Rightarrow> request) \<Rightarrow> (json_body \<Rightarrow> ('r list \<times> nat) option) \<Rightarrow>
   'r list \<Rightarrow> nat \<Rightarrow> state \<Rightarrow> ((error + 'r list) \<times> state) option" where
  "offset_pages srv mk page rows offset s =
     (case http srv (mk offset) s of
        (resp, s1) \<Rightarrow>
          (case page (body resp) of
             None \<Rightarrow> Some (Inl KeyError, s1)
           | Some (data, tot) \<Rightarrow>
               if length (rows @ data) = tot
               then Some (Inr (rows @ data), s1)
               else offset_pages srv mk page (rows @ data) (offset + 50) s1))"

text \<open>\<^verbatim>\<open>get_current_user_playlists\<close> (lines 165-197)\<close>

definition playlist_row_of :: "playlist_json \<Rightarrow> playlist_row" where
  "playlist_row_of p = \<lparr>playlist_id = pj_id p, playlist_name = pj_name p\<rparr>"

definition playlists_page :: "json_body \<Rightarrow> (playlist_row list \<times> nat) option" where
  "playlists_page b =
     (case b of PlaylistsBody items tot \<Rightarrow> Some (map playlist_row_of items, tot)
              | _ \<Rightarrow> None)"

definition get_current_user_playlists :: "server \<Rightarrow> state \<Rightarrow> playlist_row list outcome" where
  "get_current_user_playlists srv =
     check_access_token srv (\<lambda>s.
       offset_pages srv (GetPlaylists (access_token s)) playlists_page [] 0 s)"

text \<open>\<^verbatim>\<open>get_playlist_items\<close> (lines 236-280)\<close>

definition playlist_track_row_of :: "string \<Rightarrow> playlist_item_json \<Rightarrow> playlist_track_row" where
  "playlist_track_row_of pid t =
     \<lparr>item_playlist_id = pid,
      item_track_id = ij_id t,
      item_track_name = ij_name t,
      item_track_uri = ij_uri t,
      item_artist_ids = join ''|'' (map ar_id (ij_artists t)),
      item_artist_names = join ''|'' (map ar_name (ij_artists t)),
      item_album_name = ij_album_name t,
      item_album_uri = ij_album_uri t,
      item_added_at = ij_added_at t\<rparr>"

definition playlist_items_page ::
  "string \<Rightarrow> json_body \<Rightarrow> (playlist_track_row list \<times> nat) option" where
  "playlist_items_page pid b =
     (case b of PlaylistItemsBody items tot \<Rightarrow> Some (map (playlist_track_row_of pid) items, tot)
              | _ \<Rightarrow> None)"

definition get_playlist_items ::
  "server \<Rightarrow> string \<Rightarrow> state \<Rightarrow> playlist_track_row list outcome" where
  "get_playlist_items srv pid =
     check_access_token srv (\<lambda>s.
       offset_pages srv (GetPlaylistItems (access_token s) pid) (playlist_items_page pid) [] 0 s)"

text \<open>\<^verbatim>\<open>get_artists_albums\<close> (lines 310-353)\<close>

definition album_row_of :: "string \<Rightarrow> album_json \<Rightarrow> album_row" where
  "album_row_of aid a =
     \<lparr>album_artist_id = aid,
      album_name = bj_name a,
      album_id = bj_id a,
      album_group = bj_album_group a,
      album_release_date = bj_release_date a,
      album_is_playable = bj_is_playable a\<rparr>"

definition albums_page :: "string \<Rightarrow> json_body \<Rightarrow> (album_row list \<times> nat) option" where
  "albums_page aid b =
     (case b of AlbumsBody items tot \<Rightarrow> Some (map (album_row_of aid) items, tot)
              | _ \<Rightarrow> None)"

definition get_artists_albums :: "server \<Rightarrow> string \<Rightarrow> state \<Rightarrow> album_row list outcome" where
  "get_artists_albums srv aid =
     check_access_token srv (\<lambda>s.
       offset_pages srv (GetArtistAlbums (access_token s) aid) (albums_page aid) [] 0 s)"

text \<open>\<^verbatim>\<open>get_albums_tracks\<close> (lines 355-400)\<close>

definition track_row_of :: "string \<Rightarrow> track_json \<Rightarrow> track_row" where
  "track_row_of alb t =
     \<lparr>track_album_id = alb,
      track_name = tj_name t,
      track_id = tj_id t,
      track_uri = tj_uri t,
      track_artist_ids = join ''|'' (map ar_id (tj_artists t)),
      track_artist_names = join ''|'' (map ar_name (tj_artists t)),
      disc_number = tj_disc_number t,
      track_number = tj_track_number t,
      track_is_playable = tj_is_playable t,
      track_length = round_seconds (tj_duration_ms t)\<rparr>"

definition tracks_page :: "string \<Rightarrow> json_body \<Rightarrow> (track_row list \<times> nat) option" where
  "tracks_page alb b =
     (case b of TracksBody items tot \<Rightarrow> Some (map (track_row_of alb) items, tot)
              | _ \<Rightarrow> None)"

definition get_albums_tracks :: "server \<Rightarrow> string \<Rightarrow> state \<Rightarrow> track_row list outcome" where
  "get_albums_tracks srv alb =
     check_access_token srv (\<lambda>s.
       offset_pages srv (GetAlbumTracks (access_token s) alb) (tracks_page alb) [] 0 s)"

subsection \<open>Cursor pagination\<close>

text \<open>
  The loop of \<^verbatim>\<open>get_followed_artists\<close> (lines 118-134). \<open>after\<close> is the \<^verbatim>\<open>after\<close>
  parameter, absent on the first request. \<^verbatim>\<open>data[-1]\<close> raises \<open>IndexError\<close> on an
  empty page.
\<close>

definition artist_row_of :: "artist_json \<Rightarrow> artist_row" where
  "artist_row_of a =
     \<lparr>artist = aj_name a, artist_id = aj_id a, genres = join '' | '' (aj_genres a)\<rparr>"

partial_function (option) followed_artists_pages ::
  "server \<Rightarrow> string \<Rightarrow> artist_row list \<Rightarrow> string option \<Rightarrow> state \<Rightarrow>
   ((error + artist_row list) \<times> state) option" where
  "followed_artists_pages srv tok artists after s =
     (case http srv (GetFollowing tok after) s of
        (resp, s1) \<Rightarrow>
          (case body resp of
             ArtistsBody items tot \<Rightarrow>
               (let data = map artist_row_of items in
                if length (artists @ data) = tot
                then Some (Inr (artists @ data), s1)
                else if data = []
                then Some (Inl IndexError, s1)
                else followed_artists_pages srv tok (artists @ data)
                       (Some (artist_id (last data))) s1)
           | _ \<Rightarrow> Some (Inl KeyError, s1)))"

text \<open>
  \<^verbatim>\<open>get_followed_artists\<close> (lines 97-135): the decorator's check, then the same check
  written out in the body, then the loop.
\<close>

definition get_followed_artists :: "server \<Rightarrow> state \<Rightarrow> artist_row list outcome" where
  "get_followed_artists srv =
     check_access_token srv (\<lambda>s.
       case (if expiration_time s - now s \<le> 600
             then (case get_access_token srv s of (r, s1) \<Rightarrow> (map_sum id (\<lambda>_. ()) r, s1))
             else (Inr (), s)) of
         (Inl e, s1) \<Rightarrow> Some (Inl e, s1)
       | (Inr _, s1) \<Rightarrow> followed_artists_pages srv (access_token s1) [] None s1)"

section \<open>Writes and batch reads\<close>

text \<open>Sequencing: an error or a call that never returns ends the run there.\<close>

definition and_then :: "'a outcome \<Rightarrow> ('a \<Rightarrow> state \<Rightarrow> 'b outcome) \<Rightarrow> 'b outcome" where
  "and_then m f =
     (case m of
        None \<Rightarrow> None
      | Some (Inl e, s) \<Rightarrow> Some (Inl e, s)
      | Some (Inr a, s) \<Rightarrow> f a s)"

text \<open>
  \<^verbatim>\<open>follow_artist\<close> (lines 137-163). On a status other than 204 the method prints
  \<^verbatim>\<open>response.json()['error']['message']\<close>, which raises when the body has no such key.
\<close>

definition follow_artist :: "server \<Rightarrow> string \<Rightarrow> state \<Rightarrow> unit outcome" where
  "follow_artist srv aid =
     check_access_token srv (\<lambda>s.
       case http srv (PutFollowing (access_token s) aid) s of
         (resp, s1) \<Rightarrow>
           if status_code resp = 204 then Some (Inr (), s1)
           else (case body resp of
                   ErrorBody m \<Rightarrow> Some (Inr (), s1)
                 | _ \<Rightarrow> Some (Inl KeyError, s1)))"

text \<open>
  \<^verbatim>\<open>create_playlist\<close> (lines 199-234). A table built from no rows has no columns, so
  \<^verbatim>\<open>user_playlists['playlist_name']\<close> raises \<open>KeyError\<close> when the user has no playlist.
\<close>

definition create_playlist :: "server \<Rightarrow> string \<Rightarrow> string \<Rightarrow> state \<Rightarrow> unit outcome" where
  "create_playlist srv name description =
     check_access_token srv (\<lambda>s.
       and_then (get_current_user_playlists srv s) (\<lambda>user_playlists s1.
         if user_playlists = [] then Some (Inl KeyError, s1)
         else if name \<in> set (map playlist_name user_playlists) then Some (Inr (), s1)
         else (case http srv (PostPlaylist (access_token s1) (user_id s1) name description) s1 of
                 (resp, s2) \<Rightarrow> Some (Inr (), s2))))"

text \<open>\<^verbatim>\<open>add_items_to_playlist\<close> (lines 282-308)\<close>

definition add_items_to_playlist ::
  "server \<Rightarrow> string \<Rightarrow> string list \<Rightarrow> state \<Rightarrow> unit outcome" where
  "add_items_to_playlist srv pid track_uris =
     check_access_token srv (\<lambda>s.
       case http srv (PostPlaylistItems (access_token s) pid track_uris) s of
         (resp, s1) \<Rightarrow> Some (Inr (), s1))"

text \<open>
  \<^verbatim>\<open>get_several_albums_tracks\<close> (lines 402-447). The loop over the albums of the
  answer (lines 425-445): an album with as many tracks as the page limit, or more, is
  read again through \<^verbatim>\<open>get_albums_tracks\<close>; the others give their inline tracks.
\<close>

fun albums_tracks :: "server \<Rightarrow> full_album_json list \<Rightarrow> track_row list \<Rightarrow> state \<Rightarrow>
    track_row list outcome" where
  "albums_tracks srv [] tracks s = Some (Inr tracks, s)"
| "albums_tracks srv (album # rest) tracks s =
     (if fj_limit album \<le> fj_total_tracks album
      then and_then (get_albums_tracks srv (fj_id album) s)
             (\<lambda>more s1. albums_tracks srv rest (tracks @ more) s1)
      else albums_tracks srv rest (tracks @ map (track_row_of (fj_id album)) (fj_items album)) s)"

definition get_several_albums_tracks ::
  "server \<Rightarrow> string \<Rightarrow> state \<Rightarrow> track_row list outcome" where
  "get_several_albums_tracks srv album_ids =
     check_access_token srv (\<lambda>s.
       case http srv (GetSeveralAlbums (access_token s) album_ids) s of
         (resp, s1) \<Rightarrow>
           (case body resp of
              SeveralAlbumsBody album_list \<Rightarrow> albums_tracks srv album_list [] s1
            | _ \<Rightarrow> Some (Inl KeyError, s1)))"

section \<open>The reconciliation workflow\<close>

text \<open>
  Line 462: the \<^verbatim>\<open>playlist_id\<close> of the first row named \<^verbatim>\<open>'Pending Review'\<close>.
  A table without rows has no column \<^verbatim>\<open>playlist_name\<close> (\<open>KeyError\<close>); a selection
  without rows has no element 0 (\<open>IndexError\<close>).
\<close>

definition pending_review_playlist :: "playlist_row list \<Rightarrow> error + string" where
  "pending_review_playlist playlists =
     (if playlists = [] then Inl KeyError
      else (case filter (\<lambda>p. playlist_name p = ''Pending Review'') playlists of
              [] \<Rightarrow> Inl IndexError
            | p # _ \<Rightarrow> Inr (playlist_id p)))"

text \<open>Line 463: \<^verbatim>\<open>pd.read_csv\<close>.\<close>

definition read_csv :: "string \<Rightarrow> state \<Rightarrow> (error + ledger) \<times> state" where
  "read_csv path s =
     (case files s path of
        None \<Rightarrow> (Inl FileNotFoundError, s)
      | Some rows \<Rightarrow> (Inr rows, s))"

text \<open>Line 503: \<^verbatim>\<open>to_csv\<close>.\<close>

definition to_csv :: "string \<Rightarrow> ledger \<Rightarrow> state \<Rightarrow> (error + unit) \<times> state" where
  "to_csv path rows s =
     (Inr (), s\<lparr>files := (files s)(path \<mapsto> rows), written := written s @ [(path, rows)]\<rparr>)"

text \<open>Line 471: drop the albums whose id is in the ledger's \<^verbatim>\<open>album_id\<close> column.\<close>

definition remove_reviewed_albums :: "ledger \<Rightarrow> album_row list \<Rightarrow> error + album_row list" where
  "remove_reviewed_albums reviewed albums =
     (if albums = [] then Inl KeyError
      else Inr (filter (\<lambda>a. album_id a \<notin> set (map snd reviewed)) albums))"

text \<open>
  Lines 460-471: the playlist, the ledger, the artist's albums. The result is
  \<^verbatim>\<open>pending_review_playlist_id\<close>, \<^verbatim>\<open>reviewed_playlist_tracks\<close>, \<^verbatim>\<open>album_count\<close> (taken
  before the reviewed albums are removed) and the remaining \<^verbatim>\<open>albums\<close>.
\<close>

definition review_albums :: "server \<Rightarrow> string \<Rightarrow> string \<Rightarrow> state \<Rightarrow>
    (string \<times> ledger \<times> nat \<times> album_row list) outcome" where
  "review_albums srv aid path s =
     and_then (get_current_user_playlists srv s) (\<lambda>playlists s1.
     and_then (Some (pending_review_playlist playlists, s1)) (\<lambda>pending_review_playlist_id s2.
     and_then (Some (read_csv path s2)) (\<lambda>reviewed s3.
     and_then (get_artists_albums srv aid s3) (\<lambda>albums s4.
     and_then (Some (remove_reviewed_albums reviewed albums, s4)) (\<lambda>remaining s5.
       Some (Inr (pending_review_playlist_id, reviewed, length albums, remaining), s5))))))"

text \<open>
  Lines 474-478: for each \<open>i\<close> of the range, ask for the tracks of
  \<^verbatim>\<open>album_ids[20 * i : 20 * (i + 1)]\<close>, joined with commas, and append them.
\<close>

fun several_albums_batches :: "server \<Rightarrow> string list \<Rightarrow> nat list \<Rightarrow> track_row list \<Rightarrow>
    state \<Rightarrow> track_row list outcome" where
  "several_albums_batches srv ids [] tracks s = Some (Inr tracks, s)"
| "several_albums_batches srv ids (i # rest) tracks s =
     and_then (get_several_albums_tracks srv (join '','' (take 20 (drop (20 * i) ids))) s)
       (\<lambda>frame s1. several_albums_batches srv ids rest (tracks @ frame) s1)"

text \<open>
  Lines 481-482: keep the tracks whose joined artist ids contain \<^verbatim>\<open>artist_id\<close>, then
  drop those whose id is in the ledger's \<^verbatim>\<open>track_id\<close> column. The concatenation of
  tables without rows has no column \<^verbatim>\<open>track_artist_ids\<close>.
\<close>

definition relevant_tracks :: "string \<Rightarrow> ledger \<Rightarrow> track_row list \<Rightarrow> error + track_row list" where
  "relevant_tracks aid reviewed tracks =
     (if tracks = [] then Inl KeyError
      else Inr (filter (\<lambda>t. track_id t \<notin> set (map fst reviewed))
                 (filter (\<lambda>t. str_in aid (track_artist_ids t)) tracks)))"

text \<open>Lines 460-482: everything up to the filtered \<^verbatim>\<open>tracks\<close>.\<close>

definition review_tracks :: "server \<Rightarrow> string \<Rightarrow> string \<Rightarrow> state \<Rightarrow>
    (string \<times> ledger \<times> track_row list) outcome" where
  "review_tracks srv aid path s =
     and_then (review_albums srv aid path s)
       (\<lambda>(pending_review_playlist_id, reviewed, album_count, albums) s1.
     and_then (several_albums_batches srv (map album_id albums)
                 [0 ..< album_count div 20 + 1] [] s1) (\<lambda>fetched s2.
     and_then (Some (relevant_tracks aid reviewed fetched, s2)) (\<lambda>tracks s3.
       Some (Inr (pending_review_playlist_id, reviewed, tracks), s3))))"

text \<open>Line 485: the rows that do not repeat the name, artist ids and length of an earlier row.\<close>

definition pending_review_tracks :: "track_row list \<Rightarrow> track_row list" where
  "pending_review_tracks tracks =
     loc tracks
       (map Not (duplicated (\<lambda>t. (track_name t, track_artist_ids t, track_length t)) tracks))"

text \<open>Lines 495-499: upload \<^verbatim>\<open>track_uris[100 * i : 100 * (i + 1)]\<close> for each \<open>i\<close> of the range.\<close>

fun upload_batches :: "server \<Rightarrow> string \<Rightarrow> string list \<Rightarrow> nat list \<Rightarrow> state \<Rightarrow> unit outcome" where
  "upload_batches srv pid uris [] s = Some (Inr (), s)"
| "upload_batches srv pid uris (i # rest) s =
     and_then (add_items_to_playlist srv pid (take 100 (drop (100 * i) uris)) s)
       (\<lambda>_ s1. upload_batches srv pid uris rest s1)"

text \<open>Lines 487-508: the prompt, the uploads, the ledger, the follow.\<close>

definition review_commit :: "server \<Rightarrow> string \<Rightarrow> string \<Rightarrow> string \<Rightarrow> ledger \<Rightarrow>
    track_row list \<Rightarrow> state \<Rightarrow> unit outcome" where
  "review_commit srv aid path pending_review_playlist_id reviewed tracks s =
     (let pending = pending_review_tracks tracks in
      and_then (Some (input s)) (\<lambda>answer s1.
        if answer \<noteq> ''Y'' then Some (Inr (), s1)
        else
          and_then (upload_batches srv pending_review_playlist_id (map track_uri pending)
                      [0 ..< length pending div 100 + 1] s1) (\<lambda>_ s2.
          and_then (Some (to_csv path
                      (drop_duplicates
                         (reviewed @ map (\<lambda>t. (track_id t, track_album_id t)) tracks)) s2)) (\<lambda>_ s3.
            follow_artist srv aid s3))))"

text \<open>\<^verbatim>\<open>review_artist_discography\<close> (lines 449-508)\<close>

definition review_artist_discography :: "server \<Rightarrow> string \<Rightarrow> string \<Rightarrow> state \<Rightarrow> unit outcome" where
  "review_artist_discography srv aid path =
     check_access_token srv (\<lambda>s.
       and_then (review_tracks srv aid path s) (\<lambda>(pending_review_playlist_id, reviewed, tracks) s1.
         review_commit srv aid path pending_review_playlist_id reviewed tracks s1))"

section \<open>Test fixtures\<close>

text \<open>
  A client whose token was issued at time 1000 for an hour. With \<open>expiration_time\<close>
  set to 1500 the token has 500 seconds left, with 1700 it has 700.
\<close>

definition demo_state :: state where
  "demo_state =
     \<lparr>client_id = ''id'', client_secret = ''secret'', refresh_token = ''refresh'',
      access_token = ''old'', expiration_time = 4600, user_id = ''me'', now = 1000,
      sent = [], stdin = [], files = (\<lambda>path. None), written = []\<rparr>"

text \<open>A server that mints the token \<open>''new''\<close>, knows the user and follows nobody.\<close>

definition token_server :: server where
  "token_server i rq =
     (case rq of
        PostToken cid secret grant \<Rightarrow> \<lparr>status_code = 200, body = TokenBody (Some ''new'') None\<rparr>
      | GetMe tok \<Rightarrow> \<lparr>status_code = 200, body = UserBody ''me''\<rparr>
      | GetFollowing tok after \<Rightarrow> \<lparr>status_code = 200, body = ArtistsBody [] 0\<rparr>
      | _ \<Rightarrow> \<lparr>status_code = 404, body = OtherBody\<rparr>)"

text \<open>
  Tracks of one album. \<open>song\<close> and \<open>song_longer\<close> share name and artists and differ in
  length; \<open>song_again\<close> repeats the key of \<open>song\<close> under another id. \<open>guest_song\<close> is by
  the artist \<open>''xaby''\<close> alone.
\<close>

definition song :: track_row where
  "song = \<lparr>track_album_id = ''album1'', track_name = ''Song A'', track_id = ''t1'',
           track_uri = ''uri:t1'', track_artist_ids = ''x'', track_artist_names = ''X'',
           disc_number = 1, track_number = 1, track_is_playable = True, track_length = 180\<rparr>"

definition song_longer :: track_row where
  "song_longer = song\<lparr>track_id := ''t2'', track_uri := ''uri:t2'', track_length := 181\<rparr>"

definition song_again :: track_row where
  "song_again = song\<lparr>track_album_id := ''album2'', track_id := ''t3'', track_uri := ''uri:t3''\<rparr>"

definition guest_song :: track_json where
  "guest_song = \<lparr>tj_name = ''Guest'', tj_id = ''t9'', tj_uri = ''uri:t9'',
                 tj_artists = [\<lparr>ar_id = ''xaby'', ar_name = ''Other''\<rparr>],
                 tj_disc_number = 1, tj_track_number = 1, tj_is_playable = True,
                 tj_duration_ms = 200500\<rparr>"

text \<open>
  \<open>duet_song\<close> has the two artists \<open>''xy''\<close> and \<open>''zw''\<close>, \<open>solo_song\<close> the artist
  \<open>''q''\<close> alone.
\<close>

definition duet_song :: track_json where
  "duet_song = \<lparr>tj_name = ''Duet'', tj_id = ''t8'', tj_uri = ''uri:t8'',
                tj_artists = [\<lparr>ar_id = ''xy'', ar_name = ''First''\<rparr>,
                              \<lparr>ar_id = ''zw'', ar_name = ''Second''\<rparr>],
                tj_disc_number = 1, tj_track_number = 2, tj_is_playable = True,
                tj_duration_ms = 187499\<rparr>"

definition solo_song :: track_json where
  "solo_song = \<lparr>tj_name = ''Solo'', tj_id = ''t7'', tj_uri = ''uri:t7'',
                tj_artists = [\<lparr>ar_id = ''q'', ar_name = ''Quiet''\<rparr>],
                tj_disc_number = 1, tj_track_number = 3, tj_is_playable = True,
                tj_duration_ms = 90000\<rparr>"

text \<open>
  A simulated service for the workflow. The user has the playlists \<open>playlists\<close> and the
  artist the albums \<open>albums\<close>, both served in pages of 50; a
  several-albums request that names an album is answered with one album, \<open>''b1''\<close>,
  holding \<open>tracks\<close> inline, and one that names none with no album; uploads and follows
  succeed. \<open>shop_playlists\<close> are two playlists, the second named \<open>Pending Review\<close>.
\<close>

definition shop_playlists :: "playlist_json list" where
  "shop_playlists = [\<lparr>pj_id = ''pl0'', pj_name = ''Favourites''\<rparr>,
                     \<lparr>pj_id = ''pl1'', pj_name = ''Pending Review''\<rparr>]"

definition shop :: "playlist_json list \<Rightarrow> album_json list \<Rightarrow> track_json list \<Rightarrow> server" where
  "shop playlists albums tracks i rq =
     (case rq of
        PostToken cid secret grant \<Rightarrow> \<lparr>status_code = 200, body = TokenBody (Some ''new'') None\<rparr>
      | GetPlaylists tok offset \<Rightarrow>
          \<lparr>status_code = 200,
           body = PlaylistsBody (take 50 (drop offset playlists)) (length playlists)\<rparr>
      | GetArtistAlbums tok aid offset \<Rightarrow>
          \<lparr>status_code = 200, body = AlbumsBody (take 50 (drop offset albums)) (length albums)\<rparr>
      | GetSeveralAlbums tok ids \<Rightarrow>
          \<lparr>status_code = 200,
           body = SeveralAlbumsBody
                    (if ids = [] then []
                     else [\<lparr>fj_id = ''b1'', fj_total_tracks = int (length tracks),
                            fj_limit = int (length tracks) + 1, fj_items = tracks\<rparr>])\<rparr>
      | PostPlaylistItems tok pid uris \<Rightarrow> \<lparr>status_code = 201, body = OtherBody\<rparr>
      | PutFollowing tok aid \<Rightarrow> \<lparr>status_code = 204, body = OtherBody\<rparr>
      | _ \<Rightarrow> \<lparr>status_code = 404, body = OtherBody\<rparr>)"

definition album_b1 :: album_json where
  "album_b1 = \<lparr>bj_name = ''First'', bj_id = ''b1'', bj_album_group = ''album'',
               bj_release_date = ''2020-01-01'', bj_is_playable = True\<rparr>"

text \<open>
  The client of \<open>demo_state\<close> with the ledger \<open>reviewed\<close> in the file \<open>''reviewed.csv''\<close>
  and an operator who will type \<open>answer\<close>.
\<close>

definition review_state :: "ledger \<Rightarrow> string \<Rightarrow> state" where
  "review_state reviewed answer =
     demo_state\<lparr>stdin := [answer],
                 files := (\<lambda>path. if path = ''reviewed.csv'' then Some reviewed else None)\<rparr>"

section \<open>Vocabulary for the claims\<close>

text \<open>
  \<open>only_sends P s s'\<close>: the state \<open>s'\<close> is \<open>s\<close> after some more requests, all of them
  satisfying \<open>P\<close>; nothing else has changed. \<open>sends_only P f\<close>: every run of \<open>f\<close> that
  returns is of that kind.
\<close>

definition only_sends :: "(request \<Rightarrow> bool) \<Rightarrow> state \<Rightarrow> state \<Rightarrow> bool" where
  "only_sends P s s' \<longleftrightarrow> (\<exists>new. s' = s\<lparr>sent := sent s @ new\<rparr> \<and> list_all P new)"

definition sends_only :: "(request \<Rightarrow> bool) \<Rightarrow> (state \<Rightarrow> 'a outcome) \<Rightarrow> bool" where
  "sends_only P f \<longleftrightarrow> (\<forall>s r s'. f s = Some (r, s') \<longrightarrow> only_sends P s s')"

text \<open>
  The calls a list of requests stands for: the uploads of \<^verbatim>\<open>add_items_to_playlist\<close>
  (playlist and URIs), the artists of \<^verbatim>\<open>follow_artist\<close>, and the id strings of
  \<^verbatim>\<open>get_several_albums_tracks\<close>.
\<close>

definition upload_requests :: "request list \<Rightarrow> (string \<times> string list) list" where
  "upload_requests rqs =
     concat (map (\<lambda>rq. case rq of PostPlaylistItems tok pid uris \<Rightarrow> [(pid, uris)] | _ \<Rightarrow> []) rqs)"

definition follow_requests :: "request list \<Rightarrow> string list" where
  "follow_requests rqs =
     concat (map (\<lambda>rq. case rq of PutFollowing tok aid \<Rightarrow> [aid] | _ \<Rightarrow> []) rqs)"

definition several_requests :: "request list \<Rightarrow> string list" where
  "several_requests rqs =
     concat (map (\<lambda>rq. case rq of GetSeveralAlbums tok ids \<Rightarrow> [ids] | _ \<Rightarrow> []) rqs)"

text \<open>The requests that read and change nothing on the server, the token request among them.\<close>

fun is_read :: "request \<Rightarrow> bool" where
  "is_read (PutFollowing tok aid) = False"
| "is_read (PostPlaylist tok uid name description) = False"
| "is_read (PostPlaylistItems tok pid uris) = False"
| "is_read rq = True"

section \<open>Tables: selections and duplicates\<close>

lemma str_in_sublist: "str_in needle hay \<longleftrightarrow> sublist needle hay"
  by (induction hay) (auto simp: sublist_Cons_right)

lemma loc_nth:
  assumes len: "length flags = length xs"
  shows "loc xs flags = map ((!) xs) (filter ((!) flags) [0 ..< length xs])"
proof -
  have "zip xs flags = map (\<lambda>i. (xs ! i, flags ! i)) [0 ..< length xs]"
    using len by (intro nth_equalityI) auto
  then show ?thesis
    by (simp add: loc_def filter_map comp_def)
qed

lemma length_duplicated_from: "length (duplicated_from seen key xs) = length xs"
  by (induction xs arbitrary: seen) auto

text \<open>A row is flagged when its key was seen before the table or on an earlier row.\<close>

lemma duplicated_from_nth:
  "i < length xs \<Longrightarrow>
   duplicated_from seen key xs ! i \<longleftrightarrow>
     key (xs ! i) \<in> set seen \<or> (\<exists>j<i. key (xs ! j) = key (xs ! i))"
proof (induction xs arbitrary: seen i)
  case Nil
  then show ?case by simp
next
  case (Cons x xs)
  show ?case
  proof (cases i)
    case 0
    then show ?thesis by simp
  next
    case (Suc k)
    with Cons.prems have k: "k < length xs" by simp
    have "(\<exists>j<Suc k. key ((x # xs) ! j) = key (xs ! k)) \<longleftrightarrow>
          key x = key (xs ! k) \<or> (\<exists>j<k. key (xs ! j) = key (xs ! k))"
      by (auto simp: less_Suc_eq_0_disj)
    with Cons.IH[OF k, of "key x # seen"] Suc show ?thesis by auto
  qed
qed

lemma loc_not_duplicated:
  "loc xs (map Not (duplicated key xs)) =
     map ((!) xs) (filter (\<lambda>i. \<forall>j<i. key (xs ! j) \<noteq> key (xs ! i)) [0 ..< length xs])"
proof -
  let ?flags = "map Not (duplicated key xs)"
  have len: "length ?flags = length xs"
    by (simp add: duplicated_def length_duplicated_from)
  have "filter ((!) ?flags) [0 ..< length xs] =
        filter (\<lambda>i. \<forall>j<i. key (xs ! j) \<noteq> key (xs ! i)) [0 ..< length xs]"
    by (rule filter_cong)
       (auto simp: duplicated_def length_duplicated_from duplicated_from_nth)
  with loc_nth[OF len] show ?thesis by simp
qed

section \<open>Which requests an operation sends\<close>

lemma only_sends_refl: "only_sends P s s"
  unfolding only_sends_def by (rule exI[of _ "[]"]) simp

lemma only_sends_trans:
  assumes "only_sends P s s1" and "only_sends P s1 s2"
  shows "only_sends P s s2"
proof -
  from assms obtain a b where a: "s1 = s\<lparr>sent := sent s @ a\<rparr>" "list_all P a"
    and b: "s2 = s1\<lparr>sent := sent s1 @ b\<rparr>" "list_all P b"
    unfolding only_sends_def by blast
  then have "s2 = s\<lparr>sent := sent s @ (a @ b)\<rparr>" "list_all P (a @ b)" by simp_all
  then show ?thesis unfolding only_sends_def by blast
qed

lemma only_sends_http: "P rq \<Longrightarrow> only_sends P s (snd (http srv rq s))"
  unfolding only_sends_def http_def by (intro exI[of _ "[rq]"]) simp

lemma only_sends_mono: "only_sends P s s' \<Longrightarrow> (\<And>rq. P rq \<Longrightarrow> Q rq) \<Longrightarrow> only_sends Q s s'"
  unfolding only_sends_def by (auto simp: list_all_iff)

lemma only_sends_fields:
  assumes "only_sends P s s'"
  shows "stdin s' = stdin s" "files s' = files s" "written s' = written s"
    "access_token s' = access_token s" "expiration_time s' = expiration_time s"
    "now s' = now s" "client_id s' = client_id s" "client_secret s' = client_secret s"
    "refresh_token s' = refresh_token s" "user_id s' = user_id s"
  using assms unfolding only_sends_def by auto

lemma sends_onlyI: "(\<And>s r s'. f s = Some (r, s') \<Longrightarrow> only_sends P s s') \<Longrightarrow> sends_only P f"
  unfolding sends_only_def by blast

lemma sends_onlyD: "sends_only P f \<Longrightarrow> f s = Some (r, s') \<Longrightarrow> only_sends P s s'"
  unfolding sends_only_def by blast

lemma only_sends_get_access_token:
  assumes "\<And>c k g. P (PostToken c k g)"
  shows "only_sends P s (snd (get_access_token srv s))"
proof -
  have "snd (get_access_token srv s) =
        snd (http srv (PostToken (client_id s) (client_secret s) (RefreshToken (refresh_token s))) s)"
    by (simp add: get_access_token_def http_def split: json_body.splits option.splits)
  with only_sends_http[of P, OF assms] show ?thesis by simp
qed

lemma sends_only_check:
  assumes tok: "\<And>c k g. P (PostToken c k g)" and f: "sends_only P f"
  shows "sends_only P (check_access_token srv f)"
proof (rule sends_onlyI)
  fix s r s'
  assume run: "check_access_token srv f s = Some (r, s')"
  show "only_sends P s s'"
  proof (cases "expiration_time s - now s \<le> 600")
    case False
    with run f show ?thesis by (simp add: check_access_token_def sends_onlyD)
  next
    case True
    obtain g s1 where g: "get_access_token srv s = (g, s1)" by (cases "get_access_token srv s")
    with only_sends_get_access_token[of P s srv, OF tok] have s1: "only_sends P s s1" by simp
    show ?thesis
    proof (cases g)
      case (Inl e)
      with run True g have "s' = s1" by (simp add: check_access_token_def)
      with s1 show ?thesis by simp
    next
      case (Inr a)
      with run True g have "f s1 = Some (r, s')" by (simp add: check_access_token_def)
      with f have "only_sends P s1 s'" by (rule sends_onlyD)
      with s1 show ?thesis by (rule only_sends_trans)
    qed
  qed
qed

lemma sends_only_and_then:
  assumes m: "sends_only P m" and f: "\<And>a. sends_only P (f a)"
  shows "sends_only P (\<lambda>s. and_then (m s) f)"
proof (rule sends_onlyI)
  fix s r s'
  assume run: "and_then (m s) f = Some (r, s')"
  then obtain x s1 where ms: "m s = Some (x, s1)"
    by (cases "m s") (auto simp: and_then_def)
  with m have s1: "only_sends P s s1" by (rule sends_onlyD)
  show "only_sends P s s'"
  proof (cases x)
    case (Inl e)
    with run ms have "s' = s1" by (simp add: and_then_def)
    with s1 show ?thesis by simp
  next
    case (Inr a)
    with run ms have "f a s1 = Some (r, s')" by (simp add: and_then_def)
    with f[of a] have "only_sends P s1 s'" by (rule sends_onlyD)
    with s1 show ?thesis by (rule only_sends_trans)
  qed
qed

lemma sends_only_pure: "sends_only P (\<lambda>s. Some (g s, s))"
  by (rule sends_onlyI) (auto simp: only_sends_refl)

lemma sends_only_offset_pages:
  assumes P: "\<And>offset. P (mk offset)"
  shows "sends_only P (offset_pages srv mk page rows offset)"
proof (rule sends_onlyI)
  fix s r s'
  assume run: "offset_pages srv mk page rows offset s = Some (r, s')"
  have "srv = srv \<and> mk = mk \<and> page = page \<longrightarrow> only_sends P s (snd (r, s'))"
  proof (rule offset_pages.raw_induct[where P = "\<lambda>srv' mk' page' rows offset s y.
           srv' = srv \<and> mk' = mk \<and> page' = page \<longrightarrow> only_sends P s (snd y)", OF _ run])
    fix f srv' mk' page' rows offset s y
    assume IH: "\<And>a b c d e g y. f a b c d e g = Some y \<Longrightarrow>
              a = srv \<and> b = mk \<and> c = page \<longrightarrow> only_sends P g (snd y)"
      and step: "(case http srv' (mk' offset) s of
        (resp, s1) \<Rightarrow>
          (case page' (body resp) of
             None \<Rightarrow> Some (Inl KeyError, s1)
           | Some (data, tot) \<Rightarrow>
               if length (rows @ data) = tot
               then Some (Inr (rows @ data), s1)
               else f srv' mk' page' (rows @ data) (offset + 50) s1)) = Some y"
    show "srv' = srv \<and> mk' = mk \<and> page' = page \<longrightarrow> only_sends P s (snd y)"
    proof
      assume eq: "srv' = srv \<and> mk' = mk \<and> page' = page"
      obtain resp s1 where h: "http srv (mk offset) s = (resp, s1)" by (cases "http srv (mk offset) s")
      with only_sends_http[of P "mk offset" s srv] P have s1: "only_sends P s s1" by simp
      show "only_sends P s (snd y)"
      proof (cases "page (body resp)")
        case None
        with step eq h have "snd y = s1" by auto
        with s1 show ?thesis by simp
      next
        case (Some p)
        obtain data tot where p: "p = (data, tot)" by (cases p)
        show ?thesis
        proof (cases "length (rows @ data) = tot")
          case True
          with step eq h Some p have "snd y = s1" by auto
          with s1 show ?thesis by simp
        next
          case False
          with step eq h Some p have "f srv mk page (rows @ data) (offset + 50) s1 = Some y" by auto
          from IH[OF this] have "only_sends P s1 (snd y)" by simp
          with s1 show ?thesis by (rule only_sends_trans)
        qed
      qed
    qed
  qed
  then show "only_sends P s s'" by simp
qed

lemma sends_only_pages_self:
  assumes "\<And>tok offset. P (mk tok offset)"
  shows "sends_only P (\<lambda>s. offset_pages srv (mk (access_token s)) page rows offset s)"
proof (rule sends_onlyI)
  fix s r s'
  assume "offset_pages srv (mk (access_token s)) page rows offset s = Some (r, s')"
  with sends_only_offset_pages[of P "mk (access_token s)" srv page rows offset] assms
  show "only_sends P s s'" by (simp add: sends_onlyD)
qed

lemma sends_only_http_then:
  assumes rq: "\<And>s. P (rq s)" and f: "\<And>resp. sends_only P (f resp)"
  shows "sends_only P (\<lambda>s. case http srv (rq s) s of (resp, s1) \<Rightarrow> f resp s1)"
proof (rule sends_onlyI)
  fix s r s'
  assume run: "(case http srv (rq s) s of (resp, s1) \<Rightarrow> f resp s1) = Some (r, s')"
  obtain resp s1 where h: "http srv (rq s) s = (resp, s1)" by (cases "http srv (rq s) s")
  with only_sends_http[of P "rq s" s srv] rq have "only_sends P s s1" by simp
  moreover from run h f[of resp] have "only_sends P s1 s'" by (simp add: sends_onlyD)
  ultimately show "only_sends P s s'" by (rule only_sends_trans)
qed

lemma sends_only_const: "sends_only P (\<lambda>s. Some (r, s))"
  by (rule sends_onlyI) (auto simp: only_sends_refl)

lemma sends_only_get_current_user_playlists:
  assumes tok: "\<And>c k g. P (PostToken c k g)" and get: "\<And>tok offset. P (GetPlaylists tok offset)"
  shows "sends_only P (get_current_user_playlists srv)"
  unfolding get_current_user_playlists_def
  by (rule sends_only_check[where P = P, OF tok])
     (rule sends_only_pages_self[where P = P and mk = GetPlaylists, OF get])

lemma sends_only_get_artists_albums:
  assumes tok: "\<And>c k g. P (PostToken c k g)"
    and get: "\<And>tok aid offset. P (GetArtistAlbums tok aid offset)"
  shows "sends_only P (get_artists_albums srv aid)"
  unfolding get_artists_albums_def
  by (rule sends_only_check[where P = P, OF tok])
     (rule sends_only_pages_self[where P = P and mk = "\<lambda>tok. GetArtistAlbums tok aid", OF get])

lemma sends_only_get_albums_tracks:
  assumes tok: "\<And>c k g. P (PostToken c k g)"
    and get: "\<And>tok alb offset. P (GetAlbumTracks tok alb offset)"
  shows "sends_only P (get_albums_tracks srv alb)"
  unfolding get_albums_tracks_def
  by (rule sends_only_check[where P = P, OF tok])
     (rule sends_only_pages_self[where P = P and mk = "\<lambda>tok. GetAlbumTracks tok alb", OF get])

lemma sends_only_albums_tracks:
  assumes tok: "\<And>c k g. P (PostToken c k g)"
    and get: "\<And>tok alb offset. P (GetAlbumTracks tok alb offset)"
  shows "sends_only P (albums_tracks srv album_list tracks)"
proof (induction album_list arbitrary: tracks)
  case Nil
  have "albums_tracks srv [] tracks = (\<lambda>s. Some (Inr tracks, s))" by (rule ext) simp
  with sends_only_const[of P "Inr tracks"] show ?case by (simp only:)
next
  case (Cons album rest)
  show ?case
  proof (cases "fj_limit album \<le> fj_total_tracks album")
    case True
    then have "albums_tracks srv (album # rest) tracks =
        (\<lambda>s. and_then (get_albums_tracks srv (fj_id album) s)
               (\<lambda>more s1. albums_tracks srv rest (tracks @ more) s1))"
      by (intro ext) simp
    moreover have "sends_only P (\<lambda>s. and_then (get_albums_tracks srv (fj_id album) s)
               (\<lambda>more s1. albums_tracks srv rest (tracks @ more) s1))"
      by (rule sends_only_and_then) (rule sends_only_get_albums_tracks[where P = P, OF tok get], rule Cons.IH)
    ultimately show ?thesis by (simp only:)
  next
    case False
    then have "albums_tracks srv (album # rest) tracks =
        albums_tracks srv rest (tracks @ map (track_row_of (fj_id album)) (fj_items album))"
      by (intro ext) simp
    with Cons.IH[of "tracks @ map (track_row_of (fj_id album)) (fj_items album)"]
    show ?thesis by (simp only:)
  qed
qed

lemma sends_only_get_several_albums_tracks:
  assumes tok: "\<And>c k g. P (PostToken c k g)"
    and get: "\<And>tok alb offset. P (GetAlbumTracks tok alb offset)"
    and several: "\<And>tok ids. P (GetSeveralAlbums tok ids)"
  shows "sends_only P (get_several_albums_tracks srv album_ids)"
  unfolding get_several_albums_tracks_def
proof (rule sends_only_check[where P = P, OF tok], rule sends_only_http_then[where P = P, OF several])
  fix resp
  show "sends_only P (\<lambda>s1. case body resp of
          SeveralAlbumsBody album_list \<Rightarrow> albums_tracks srv album_list [] s1
        | _ \<Rightarrow> Some (Inl KeyError, s1))"
    by (cases "body resp") (simp_all add: sends_only_const sends_only_albums_tracks tok get)
qed

lemma sends_only_several_albums_batches:
  assumes tok: "\<And>c k g. P (PostToken c k g)"
    and get: "\<And>tok alb offset. P (GetAlbumTracks tok alb offset)"
    and several: "\<And>tok ids. P (GetSeveralAlbums tok ids)"
  shows "sends_only P (several_albums_batches srv ids idxs tracks)"
proof (induction idxs arbitrary: tracks)
  case Nil
  have "several_albums_batches srv ids [] tracks = (\<lambda>s. Some (Inr tracks, s))" by (rule ext) simp
  with sends_only_const[of P "Inr tracks"] show ?case by (simp only:)
next
  case (Cons i rest)
  have "several_albums_batches srv ids (i # rest) tracks =
      (\<lambda>s. and_then (get_several_albums_tracks srv (join '','' (take 20 (drop (20 * i) ids))) s)
             (\<lambda>frame s1. several_albums_batches srv ids rest (tracks @ frame) s1))"
    by (intro ext) simp
  moreover have "sends_only P
      (\<lambda>s. and_then (get_several_albums_tracks srv (join '','' (take 20 (drop (20 * i) ids))) s)
             (\<lambda>frame s1. several_albums_batches srv ids rest (tracks @ frame) s1))"
    by (rule sends_only_and_then)
       (rule sends_only_get_several_albums_tracks[where P = P, OF tok get several], rule Cons.IH)
  ultimately show ?case by (simp only:)
qed

lemma sends_only_review_albums:
  assumes tok: "\<And>c k g. P (PostToken c k g)"
    and pl: "\<And>tok offset. P (GetPlaylists tok offset)"
    and al: "\<And>tok aid offset. P (GetArtistAlbums tok aid offset)"
  shows "sends_only P (review_albums srv aid path)"
proof -
  have csv: "sends_only P (\<lambda>s. Some (read_csv path s))"
    by (rule sends_onlyI) (auto simp: read_csv_def only_sends_refl split: option.splits)
  have "sends_only P (\<lambda>s.
     and_then (get_current_user_playlists srv s) (\<lambda>playlists s1.
     and_then (Some (pending_review_playlist playlists, s1)) (\<lambda>pending_review_playlist_id s2.
     and_then (Some (read_csv path s2)) (\<lambda>reviewed s3.
     and_then (get_artists_albums srv aid s3) (\<lambda>albums s4.
     and_then (Some (remove_reviewed_albums reviewed albums, s4)) (\<lambda>remaining s5.
       Some (Inr (pending_review_playlist_id, reviewed, length albums, remaining), s5)))))))"
    apply (rule sends_only_and_then[OF sends_only_get_current_user_playlists[where P = P, OF tok pl]])
    apply (rule sends_only_and_then[OF sends_only_const])
    apply (rule sends_only_and_then[OF csv])
    apply (rule sends_only_and_then[OF sends_only_get_artists_albums[where P = P, OF tok al]])
    apply (rule sends_only_and_then[OF sends_only_const])
    apply (rule sends_only_const)
    done
  then show ?thesis
    unfolding review_albums_def .
qed

lemma sends_only_review_tracks:
  assumes tok: "\<And>c k g. P (PostToken c k g)"
    and pl: "\<And>tok offset. P (GetPlaylists tok offset)"
    and al: "\<And>tok aid offset. P (GetArtistAlbums tok aid offset)"
    and get: "\<And>tok alb offset. P (GetAlbumTracks tok alb offset)"
    and several: "\<And>tok ids. P (GetSeveralAlbums tok ids)"
  shows "sends_only P (review_tracks srv aid path)"
proof -
  have "sends_only P (\<lambda>s. and_then (review_albums srv aid path s) (\<lambda>x s1.
     and_then (several_albums_batches srv (map album_id (snd (snd (snd x))))
                 [0 ..< fst (snd (snd x)) div 20 + 1] [] s1) (\<lambda>fetched s2.
     and_then (Some (relevant_tracks aid (fst (snd x)) fetched, s2)) (\<lambda>tracks s3.
       Some (Inr (fst x, fst (snd x), tracks), s3)))))"
    apply (rule sends_only_and_then[OF sends_only_review_albums[where P = P, OF tok pl al]])
    apply (rule sends_only_and_then[OF sends_only_several_albums_batches[where P = P, OF tok get several]])
    apply (rule sends_only_and_then[OF sends_only_const])
    apply (rule sends_only_const)
    done
  then show ?thesis
    unfolding review_tracks_def by (simp only: split_def)
qed

section \<open>Runs that return, step by step\<close>

lemma upload_requests_append [simp]:
  "upload_requests (a @ b) = upload_requests a @ upload_requests b"
  by (simp add: upload_requests_def)

lemma follow_requests_append [simp]:
  "follow_requests (a @ b) = follow_requests a @ follow_requests b"
  by (simp add: follow_requests_def)

lemma several_requests_append [simp]:
  "several_requests (a @ b) = several_requests a @ several_requests b"
  by (simp add: several_requests_def)

lemma reads_no_uploads: "list_all is_read new \<Longrightarrow> upload_requests new = []"
  by (induction new) (auto simp: upload_requests_def split: request.splits)

lemma reads_no_follows: "list_all is_read new \<Longrightarrow> follow_requests new = []"
  by (induction new) (auto simp: follow_requests_def split: request.splits)

lemma only_reads_no_writes:
  assumes "only_sends is_read s s'"
  shows "upload_requests (sent s') = upload_requests (sent s)"
    "follow_requests (sent s') = follow_requests (sent s)"
  using assms unfolding only_sends_def by (auto simp: reads_no_uploads reads_no_follows)

lemma check_access_token_Some:
  assumes run: "check_access_token srv f s = Some (r, s')"
    and tok: "\<And>c k g. P (PostToken c k g)"
  shows "(\<exists>s0. only_sends P s s0 \<and> f s0 = Some (r, s')) \<or> (\<exists>e. only_sends P s s' \<and> r = Inl e)"
proof (cases "expiration_time s - now s \<le> 600")
  case False
  with run have "f s = Some (r, s')" by (simp add: check_access_token_def)
  with only_sends_refl[of P s] show ?thesis by blast
next
  case True
  obtain g s1 where g: "get_access_token srv s = (g, s1)" by (cases "get_access_token srv s")
  with only_sends_get_access_token[of P s srv, OF tok] have s1: "only_sends P s s1" by simp
  show ?thesis
  proof (cases g)
    case (Inl e)
    with run True g have "s' = s1" "r = Inl e" by (simp_all add: check_access_token_def)
    with s1 show ?thesis by blast
  next
    case (Inr a)
    with run True g have "f s1 = Some (r, s')" by (simp add: check_access_token_def)
    with s1 show ?thesis by blast
  qed
qed

lemma and_then_Some:
  assumes run: "and_then m f = Some (r, s')"
  shows "(\<exists>a s1. m = Some (Inr a, s1) \<and> f a s1 = Some (r, s')) \<or> (\<exists>e. m = Some (Inl e, s') \<and> r = Inl e)"
proof (cases m)
  case None
  with run show ?thesis by (simp add: and_then_def)
next
  case (Some p)
  obtain x s1 where p: "p = (x, s1)" by (cases p)
  show ?thesis
  proof (cases x)
    case (Inl e)
    with run Some p show ?thesis by (simp add: and_then_def)
  next
    case (Inr a)
    with run Some p show ?thesis by (simp add: and_then_def)
  qed
qed

lemma review_tracks_reads: "sends_only is_read (review_tracks srv aid path)"
  by (rule sends_only_review_tracks) simp_all

lemma review_commit_declined:
  assumes "stdin s = answer # rest" and "answer \<noteq> ''Y''"
  shows "review_commit srv aid path pid reviewed tracks s = Some (Inr (), s\<lparr>stdin := rest\<rparr>)"
  using assms by (simp add: review_commit_def input_def and_then_def)

section \<open>Evaluating runs against a simulated service\<close>

lemma check_access_token_fresh:
  "\<not> expiration_time s - now s \<le> 600 \<Longrightarrow> check_access_token srv f s = f s"
  by (simp add: check_access_token_def)

lemma offset_pages_stop:
  assumes "case page (body (fst (http srv (mk offset) s))) of
             None \<Rightarrow> True | Some (data, tot) \<Rightarrow> length (rows @ data) = tot"
  shows "offset_pages srv mk page rows offset s =
     (case page (body (fst (http srv (mk offset) s))) of
        None \<Rightarrow> Some (Inl KeyError, snd (http srv (mk offset) s))
      | Some (data, tot) \<Rightarrow> Some (Inr (rows @ data), snd (http srv (mk offset) s)))"
  using assms
  by (subst offset_pages.simps) (auto simp: split_def split: option.splits)

lemma offset_pages_next:
  assumes "case page (body (fst (http srv (mk offset) s))) of
             None \<Rightarrow> False | Some (data, tot) \<Rightarrow> length (rows @ data) \<noteq> tot"
  shows "offset_pages srv mk page rows offset s =
     offset_pages srv mk page (rows @ fst (the (page (body (fst (http srv (mk offset) s))))))
       (offset + 50) (snd (http srv (mk offset) s))"
  using assms
  by (subst offset_pages.simps) (auto simp: split_def split: option.splits)

lemmas run_defs =
  review_artist_discography_def review_tracks_def review_albums_def review_commit_def
  get_current_user_playlists_def get_artists_albums_def get_several_albums_tracks_def
  get_albums_tracks_def add_items_to_playlist_def follow_artist_def
  and_then_def http_def input_def read_csv_def to_csv_def
  pending_review_playlist_def remove_reviewed_albums_def relevant_tracks_def
  playlists_page_def albums_page_def tracks_page_def
  playlist_row_of_def album_row_of_def track_row_of_def

lemma declined_run:
  "review_artist_discography (shop shop_playlists [album_b1] [guest_song, duet_song]) ''xaby'' ''reviewed.csv''
     (review_state [(''t0'', ''b0'')] ''n'') =
   Some (Inr (),
         (review_state [(''t0'', ''b0'')] ''n'')
           \<lparr>sent := [GetPlaylists ''old'' 0, GetArtistAlbums ''old'' ''xaby'' 0,
                     GetSeveralAlbums ''old'' ''b1''],
            stdin := []\<rparr>)"
  by (simp add: run_defs check_access_token_fresh offset_pages_stop
        review_state_def demo_state_def shop_def shop_playlists_def album_b1_def
        guest_song_def duet_song_def)

section \<open>The workflow, phase by phase\<close>













section \<open>The claims\<close>

text \<open>
  C1. Every authenticated operation refreshes the access credential once when it has
  at most 600 seconds left and then proceeds with the newly stored token and expiry.
  The code does send the refresh request, but drops its answer: with 500 seconds left,
  \<open>get_user_id\<close> sends the token request and then asks for the user with the old token,
  and the stored token and expiry are what they were. \<open>get_followed_artists\<close>, which
  repeats the check in its body, sends the token request twice.
\<close>

theorem refresh_result_is_dropped:
  "get_user_id token_server (demo_state\<lparr>expiration_time := 1500\<rparr>) =
     Some (Inr ''me'',
           demo_state\<lparr>expiration_time := 1500,
                       sent := [PostToken ''id'' ''secret'' (RefreshToken ''refresh''),
                                GetMe ''old'']\<rparr>)
   \<and> get_followed_artists token_server (demo_state\<lparr>expiration_time := 1500\<rparr>) =
     Some (Inr [],
           demo_state\<lparr>expiration_time := 1500,
                       sent := [PostToken ''id'' ''secret'' (RefreshToken ''refresh''),
                                PostToken ''id'' ''secret'' (RefreshToken ''refresh''),
                                GetFollowing ''old'' None]\<rparr>)"
proof
  show "get_user_id token_server (demo_state\<lparr>expiration_time := 1500\<rparr>) =
     Some (Inr ''me'',
           demo_state\<lparr>expiration_time := 1500,
                       sent := [PostToken ''id'' ''secret'' (RefreshToken ''refresh''),
                                GetMe ''old'']\<rparr>)"
    by (simp add: get_user_id_def check_access_token_def get_access_token_def http_def
          demo_state_def token_server_def)
  show "get_followed_artists token_server (demo_state\<lparr>expiration_time := 1500\<rparr>) =
     Some (Inr [],
           demo_state\<lparr>expiration_time := 1500,
                       sent := [PostToken ''id'' ''secret'' (RefreshToken ''refresh''),
                                PostToken ''id'' ''secret'' (RefreshToken ''refresh''),
                                GetFollowing ''old'' None]\<rparr>)"
    apply (simp add: get_followed_artists_def check_access_token_def get_access_token_def
             http_def demo_state_def token_server_def)
    apply (subst followed_artists_pages.simps)
    apply (simp add: http_def token_server_def)
    done
qed

text \<open>
  C3. When the operator answers the confirmation prompt with anything but \<open>Y\<close>, a run
  of the workflow that returns has made no call of \<^verbatim>\<open>add_items_to_playlist\<close> and none of
  \<^verbatim>\<open>follow_artist\<close>, and has written no file: the uploads and follows among the requests
  sent, the log of written files and the files are what they were before the run.
\<close>

theorem declined_review_has_no_side_effects:
  assumes run: "review_artist_discography srv aid path s = Some (r, s')"
    and line: "stdin s = answer # rest"
    and no: "answer \<noteq> ''Y''"
  shows "upload_requests (sent s') = upload_requests (sent s)
       \<and> follow_requests (sent s') = follow_requests (sent s)
       \<and> written s' = written s
       \<and> files s' = files s"
proof -
  have quiet: "upload_requests (sent b) = upload_requests (sent a)
       \<and> follow_requests (sent b) = follow_requests (sent a)
       \<and> written b = written a \<and> files b = files a" if "only_sends is_read a b" for a b
    using that by (simp add: only_reads_no_writes only_sends_fields)
  from run have "check_access_token srv (\<lambda>s.
       and_then (review_tracks srv aid path s) (\<lambda>(pending_review_playlist_id, reviewed, tracks) s1.
         review_commit srv aid path pending_review_playlist_id reviewed tracks s1)) s = Some (r, s')"
    by (simp add: review_artist_discography_def)
  from check_access_token_Some[where P = is_read, OF this]
  consider (checked) s0 where "only_sends is_read s s0"
      "and_then (review_tracks srv aid path s0) (\<lambda>(pending_review_playlist_id, reviewed, tracks) s1.
         review_commit srv aid path pending_review_playlist_id reviewed tracks s1) = Some (r, s')"
    | (refresh_failed) "only_sends is_read s s'"
    by auto
  then show ?thesis
  proof cases
    case refresh_failed
    then show ?thesis by (rule quiet)
  next
    case checked
    from and_then_Some[OF checked(2)]
    consider (prompted) x s1 where "review_tracks srv aid path s0 = Some (Inr x, s1)"
        "(case x of (pending_review_playlist_id, reviewed, tracks) \<Rightarrow>
            review_commit srv aid path pending_review_playlist_id reviewed tracks) s1 = Some (r, s')"
      | (failed) e where "review_tracks srv aid path s0 = Some (Inl e, s')"
      by auto
    then show ?thesis
    proof cases
      case failed
      with review_tracks_reads have "only_sends is_read s0 s'" by (auto dest: sends_onlyD)
      with checked(1) have "only_sends is_read s s'" by (rule only_sends_trans)
      then show ?thesis by (rule quiet)
    next
      case prompted
      with review_tracks_reads have "only_sends is_read s0 s1" by (auto dest: sends_onlyD)
      with checked(1) have s1: "only_sends is_read s s1" by (rule only_sends_trans)
      obtain pid reviewed tracks where x: "x = (pid, reviewed, tracks)" by (cases x)
      from s1 line have "stdin s1 = answer # rest" by (simp add: only_sends_fields)
      from review_commit_declined[OF this no, of srv aid path pid reviewed tracks] prompted(2) x
      have "s' = s1\<lparr>stdin := rest\<rparr>" by simp
      with quiet[OF s1] show ?thesis by simp
    qed
  qed
qed

theorem declined_review_has_no_side_effects_witness:
  "review_artist_discography (shop shop_playlists [album_b1] [guest_song, duet_song])
     ''xaby'' ''reviewed.csv'' (review_state [(''t0'', ''b0'')] ''n'') =
   Some (Inr (),
         (review_state [(''t0'', ''b0'')] ''n'')
           \<lparr>sent := [GetPlaylists ''old'' 0, GetArtistAlbums ''old'' ''xaby'' 0,
                     GetSeveralAlbums ''old'' ''b1''],
            stdin := []\<rparr>)
   \<and> stdin (review_state [(''t0'', ''b0'')] ''n'') = [''n'']
   \<and> ''n'' \<noteq> ''Y''
   \<and> upload_requests (sent ((review_state [(''t0'', ''b0'')] ''n'')
           \<lparr>sent := [GetPlaylists ''old'' 0, GetArtistAlbums ''old'' ''xaby'' 0,
                     GetSeveralAlbums ''old'' ''b1''],
            stdin := []\<rparr>)) = upload_requests (sent (review_state [(''t0'', ''b0'')] ''n''))
   \<and> follow_requests (sent ((review_state [(''t0'', ''b0'')] ''n'')
           \<lparr>sent := [GetPlaylists ''old'' 0, GetArtistAlbums ''old'' ''xaby'' 0,
                     GetSeveralAlbums ''old'' ''b1''],
            stdin := []\<rparr>)) = follow_requests (sent (review_state [(''t0'', ''b0'')] ''n''))
   \<and> written ((review_state [(''t0'', ''b0'')] ''n'')
           \<lparr>sent := [GetPlaylists ''old'' 0, GetArtistAlbums ''old'' ''xaby'' 0,
                     GetSeveralAlbums ''old'' ''b1''],
            stdin := []\<rparr>) = written (review_state [(''t0'', ''b0'')] ''n'')
   \<and> files ((review_state [(''t0'', ''b0'')] ''n'')
           \<lparr>sent := [GetPlaylists ''old'' 0, GetArtistAlbums ''old'' ''xaby'' 0,
                     GetSeveralAlbums ''old'' ''b1''],
            stdin := []\<rparr>) = files (review_state [(''t0'', ''b0'')] ''n'')"
proof -
  have line: "stdin (review_state [(''t0'', ''b0'')] ''n'') = ''n'' # []"
    by (simp add: review_state_def)
  have no: "''n'' \<noteq> ''Y''"
    by simp
  from declined_review_has_no_side_effects[OF declined_run line no] declined_run line no
  show ?thesis
    by (intro conjI) (elim conjE, assumption)+
qed

text \<open>
  C5. The dedup step keys on the triple of track name, artist ids and length, and
  keeps of each key exactly the first row: the pending tracks are the rows, in order,
  that no earlier row matches on all three columns. A row that differs from every
  earlier row in one of the three is kept.
\<close>

theorem pending_review_tracks_first_of_key:
  "pending_review_tracks tracks =
     map ((!) tracks)
       (filter (\<lambda>i. \<forall>j<i. (track_name (tracks ! j), track_artist_ids (tracks ! j),
                            track_length (tracks ! j))
                         \<noteq> (track_name (tracks ! i), track_artist_ids (tracks ! i),
                            track_length (tracks ! i)))
          [0 ..< length tracks])"
  unfolding pending_review_tracks_def by (rule loc_not_duplicated)

theorem pending_review_tracks_first_of_key_witness:
  "pending_review_tracks [song, song_longer, song_again] =
     map ((!) [song, song_longer, song_again])
       (filter (\<lambda>i. \<forall>j<i. (track_name ([song, song_longer, song_again] ! j),
                            track_artist_ids ([song, song_longer, song_again] ! j),
                            track_length ([song, song_longer, song_again] ! j))
                         \<noteq> (track_name ([song, song_longer, song_again] ! i),
                            track_artist_ids ([song, song_longer, song_again] ! i),
                            track_length ([song, song_longer, song_again] ! i)))
          [0 ..< length [song, song_longer, song_again]])
   \<and> pending_review_tracks [song, song_longer, song_again] = [song, song_longer]"
proof
  show "pending_review_tracks [song, song_longer, song_again] =
     map ((!) [song, song_longer, song_again])
       (filter (\<lambda>i. \<forall>j<i. (track_name ([song, song_longer, song_again] ! j),
                            track_artist_ids ([song, song_longer, song_again] ! j),
                            track_length ([song, song_longer, song_again] ! j))
                         \<noteq> (track_name ([song, song_longer, song_again] ! i),
                            track_artist_ids ([song, song_longer, song_again] ! i),
                            track_length ([song, song_longer, song_again] ! i)))
          [0 ..< length [song, song_longer, song_again]])"
    by (rule pending_review_tracks_first_of_key)
  show "pending_review_tracks [song, song_longer, song_again] = [song, song_longer]"
    by (simp add: pending_review_tracks_def duplicated_def loc_def
          song_def song_longer_def song_again_def)
qed




text \<open>
  C10. The artist filter of step 5 keeps a track exactly when the artist id occurs as
  a contiguous run inside the track's artist ids joined with \<open>|\<close>: on a table with
  rows, the filtered table is the rows, in order, whose joined ids contain the artist
  id and whose track id is not in the ledger. So a track is kept although the artist is
  none of its artists, when the artist's id is a proper part of the id of one of them.
\<close>

theorem relevant_tracks_by_substring:
  "(tracks \<noteq> [] \<longrightarrow>
      relevant_tracks aid reviewed tracks =
        Inr (filter (\<lambda>t. sublist aid (track_artist_ids t) \<and> track_id t \<notin> fst ` set reviewed)
               tracks))
   \<and> (\<exists>other alb t a.
         a \<in> set (tj_artists t) \<and> sublist other (ar_id a) \<and> other \<noteq> ar_id a \<and> other \<noteq> [] \<and>
         other \<notin> set (map ar_id (tj_artists t)) \<and>
         relevant_tracks other [] [track_row_of alb t] = Inr [track_row_of alb t])"
proof (intro conjI impI)
  assume "tracks \<noteq> []"
  then show "relevant_tracks aid reviewed tracks =
        Inr (filter (\<lambda>t. sublist aid (track_artist_ids t) \<and> track_id t \<notin> fst ` set reviewed)
               tracks)"
    by (simp add: relevant_tracks_def str_in_sublist conj_commute)
next
  let ?a = "\<lparr>ar_id = ''xaby'', ar_name = ''Other''\<rparr>"
  have "?a \<in> set (tj_artists guest_song)"
    by (simp add: guest_song_def)
  moreover have "sublist ''ab'' (ar_id ?a)"
    by (simp add: str_in_sublist[symmetric])
  moreover have "''ab'' \<noteq> ar_id ?a" "''ab'' \<noteq> []"
    by simp_all
  moreover have "''ab'' \<notin> set (map ar_id (tj_artists guest_song))"
    by (simp add: guest_song_def)
  moreover have "relevant_tracks ''ab'' [] [track_row_of ''album1'' guest_song] =
      Inr [track_row_of ''album1'' guest_song]"
    by (simp add: relevant_tracks_def track_row_of_def guest_song_def)
  ultimately show "\<exists>other alb t a.
         a \<in> set (tj_artists t) \<and> sublist other (ar_id a) \<and> other \<noteq> ar_id a \<and> other \<noteq> [] \<and>
         other \<notin> set (map ar_id (tj_artists t)) \<and>
         relevant_tracks other [] [track_row_of alb t] = Inr [track_row_of alb t]"
    by blast
qed

text \<open>
  On the table of \<open>guest_song\<close>, \<open>duet_song\<close> and \<open>solo_song\<close> the artist \<open>''ab''\<close> keeps
  \<open>guest_song\<close>, of which it is no artist, and loses the other two; the joined ids of
  \<open>duet_song\<close> are \<open>''xy|zw''\<close>, and the id \<open>''y|z''\<close>, which spans the delimiter, keeps
  \<open>duet_song\<close> alone.
\<close>

theorem relevant_tracks_by_substring_witness:
  "map (track_row_of ''album1'') [guest_song, duet_song, solo_song] \<noteq> []
   \<and> relevant_tracks ''ab'' [] (map (track_row_of ''album1'') [guest_song, duet_song, solo_song]) =
       Inr [track_row_of ''album1'' guest_song]
   \<and> ''ab'' \<notin> set (map ar_id (tj_artists guest_song))
   \<and> track_artist_ids (track_row_of ''album1'' duet_song) = ''xy|zw''
   \<and> relevant_tracks ''y|z'' [] (map (track_row_of ''album1'') [guest_song, duet_song, solo_song]) =
       Inr [track_row_of ''album1'' duet_song]"
proof -
  let ?table = "map (track_row_of ''album1'') [guest_song, duet_song, solo_song]"
  have rows: "?table \<noteq> []"
    by simp
  have ids: "track_artist_ids (track_row_of ''album1'' guest_song) = ''xaby''"
    "track_artist_ids (track_row_of ''album1'' duet_song) = ''xy|zw''"
    "track_artist_ids (track_row_of ''album1'' solo_song) = ''q''"
    by (simp_all add: track_row_of_def guest_song_def duet_song_def solo_song_def)
  have "relevant_tracks ''ab'' [] ?table =
      Inr (filter (\<lambda>t. sublist ''ab'' (track_artist_ids t) \<and> track_id t \<notin> fst ` set ([] :: ledger))
             ?table)"
    by (rule relevant_tracks_by_substring
          [of ?table "''ab''" "[]", THEN conjunct1, THEN mp, OF rows])
  also have "filter (\<lambda>t. sublist ''ab'' (track_artist_ids t) \<and> track_id t \<notin> fst ` set ([] :: ledger))
             ?table = [track_row_of ''album1'' guest_song]"
    by (simp add: ids str_in_sublist[symmetric])
  finally have ab: "relevant_tracks ''ab'' [] ?table = Inr [track_row_of ''album1'' guest_song]" .
  have "relevant_tracks ''y|z'' [] ?table =
      Inr (filter (\<lambda>t. sublist ''y|z'' (track_artist_ids t) \<and> track_id t \<notin> fst ` set ([] :: ledger))
             ?table)"
    by (rule relevant_tracks_by_substring
          [of ?table "''y|z''" "[]", THEN conjunct1, THEN mp, OF rows])
  also have "filter (\<lambda>t. sublist ''y|z'' (track_artist_ids t) \<and> track_id t \<notin> fst ` set ([] :: ledger))
             ?table = [track_row_of ''album1'' duet_song]"
    by (simp add: ids str_in_sublist[symmetric])
  finally have yz: "relevant_tracks ''y|z'' [] ?table = Inr [track_row_of ''album1'' duet_song]" .
  have "''ab'' \<notin> set (map ar_id (tj_artists guest_song))"
    by (simp add: guest_song_def)
  with rows ab yz ids(2) show ?thesis
    by (intro conjI)
qed

end
